theory Spec2Isabelle
  imports Main "HOL-Library.Char_ord" "HOL-Library.List_Lexorder"
begin

text \<open>
  A model of the resumable batch import of \<open>sanity-bulk-import\<close>:
  \<open>RecoverySystem\<close> (checkpoint files, pruning, retrying) and the \<open>import\<close>
  method of the checkpointing \<open>ImportManager\<close>, both from
  \<open>src/utils/recoverySystem.js\<close>, with \<open>getImporter\<close> from the command line
  entry point.

  Every function of the source is a function here, under its name. What the source
  does to the outside (the checkpoint directory, the clock, the document store) is a
  \<open>world\<close> record passed in and returned. An exception is a value: a function that
  can throw returns \<open>message + result\<close>, \<open>Inl\<close> carrying the error's message.
  Record counts and indices are natural numbers. The batch loop need not end when the
  batch size is 0, so it returns an \<open>option\<close>, \<open>None\<close> meaning that it runs for
  ever. Calls of the logger change nothing the program reads and are left out, but
  for the warnings of \<open>retryOperation\<close>, which its trace keeps.
\<close>

section \<open>Strings and numbers as the JavaScript source uses them\<close>

text \<open>
  File names, types and error messages are \<open>string\<close>s. The names this program
  builds are ASCII, so the order of \<open>Array.prototype.sort()\<close> on names (by UTF-16
  code unit) is the lexicographic order on \<open>char list\<close> that \<open>List_Lexorder\<close>
  and \<open>Char_ord\<close> provide. An exception is the message it carries
  (\<open>error.message\<close> is all the source ever reads of one).
\<close>

type_synonym message = string

text \<open>\<open>file.startsWith(prefix)\<close>.\<close>

definition startsWith :: "string \<Rightarrow> string \<Rightarrow> bool" where
  "startsWith s p = (take (length p) s = p)"

text \<open>The regular expression class \<open>\d\<close> (no unicode flag): the ten ASCII digits.\<close>

definition is_digit :: "char \<Rightarrow> bool" where
  "is_digit c = (c \<in> set ''0123456789'')"

definition digit_value :: "char \<Rightarrow> nat" where
  "digit_value c = of_char c - 48"

text \<open>\<open>parseInt\<close> on a string of decimal digits.\<close>

definition parseInt :: "string \<Rightarrow> nat" where
  "parseInt ds = foldl (\<lambda>n c. 10 * n + digit_value c) 0 ds"

text \<open>A number inside a template literal: its decimal digits.\<close>

definition digit_char :: "nat \<Rightarrow> char" where
  "digit_char n = ''0123456789'' ! n"

function show_nat :: "nat \<Rightarrow> string" where
  "show_nat n = (if n < 10 then [digit_char n] else show_nat (n div 10) @ [digit_char (n mod 10)])"
  by pat_completeness auto
termination
  by (relation "measure id") auto

text \<open>\<open>timestamp.replace(/[:.]/g, '-')\<close>.\<close>

definition replace_colon_dot :: "string \<Rightarrow> string" where
  "replace_colon_dot s = map (\<lambda>c. if c = CHR '':'' \<or> c = CHR ''.'' then CHR ''-'' else c) s"

section \<open>The checkpoint store: \<open>RecoverySystem\<close>\<close>

text \<open>
  \<open>path.join\<close> of a directory and a name below it (neither holds \<open>..\<close> or a
  trailing separator here, so nothing is normalised).
\<close>

definition path_join :: "string \<Rightarrow> string \<Rightarrow> string" where
  "path_join dir name = dir @ ''/'' @ name"

text \<open>
  The object built by \<open>new RecoverySystem()\<close> in a process whose working directory
  is \<open>cwd\<close>: the constructor sets the directory to \<open>checkpoints\<close> below it,
  \<open>maxRetries = 3\<close> and \<open>retryDelay = 1000\<close>.
\<close>

record recovery_system =
  checkpointDir :: string
  maxRetries :: nat
  retryDelay :: nat

definition recoverySystem :: "string \<Rightarrow> recovery_system" where
  "recoverySystem cwd =
     \<lparr>checkpointDir = path_join cwd ''checkpoints'', maxRetries = 3, retryDelay = 1000\<rparr>"

text \<open>The object \<open>saveCheckpoint\<close> serialises; \<open>ctype\<close> is its field \<open>type\<close>.\<close>

record 'r checkpoint =
  timestamp :: string
  ctype :: string
  progress :: nat
  remainingData :: "'r list"
  processedCount :: nat
  totalCount :: nat

text \<open>
  A value that \<open>JSON.parse\<close> returns, as far as \<open>import\<close> tells values apart:
  \<open>null\<close>; an object with the fields of a checkpoint; or any other value, which
  has neither a \<open>remainingData\<close> nor a \<open>processedCount\<close> field and is truthy
  (\<open>{}\<close>, \<open>[]\<close>, \<open>true\<close>, a non-zero number, a non-empty string) or falsy
  (\<open>false\<close>, \<open>0\<close>, the empty string). Objects that carry one of the two fields
  without being checkpoints are not represented.
\<close>

datatype 'r json = Null | Checkpoint "'r checkpoint" | Other bool

text \<open>
  The bytes of a file: the text of a JSON value, or text that \<open>JSON.parse\<close>
  rejects.
\<close>

datatype 'r content = Json "'r json" | Garbled

text \<open>
  A directory entry: its base name, modification time (milliseconds), content, and
  whether \<open>readFile\<close>, \<open>stat\<close> and \<open>unlink\<close> succeed on it.
\<close>

record 'r file_entry =
  fname :: string
  mtime :: int
  content :: "'r content"
  readable :: bool
  statable :: bool
  removable :: bool

text \<open>One reading of the clock: \<open>Date.now()\<close> and \<open>new Date().toISOString()\<close>.\<close>

record instant =
  ms :: int
  iso :: string

text \<open>
  The world outside the program, passed through every effectful call. The clock, the
  disk's write faults and the document store's commit faults are scripts indexed by
  how often each was used so far; \<open>committed\<close> lists the batches the document store
  accepted, in order.
\<close>

record ('r, 'd) world =
  files :: "'r file_entry list"
  mkdir_fault :: "message option"
  readdir_fault :: "message option"
  clock :: "nat \<Rightarrow> instant"
  ticks :: nat
  write_fault :: "nat \<Rightarrow> message option"
  writes :: nat
  commit_fault :: "nat \<Rightarrow> message option"
  commits :: nat
  committed :: "'d list list"

definition read_clock :: "('r, 'd) world \<Rightarrow> instant \<times> ('r, 'd) world" where
  "read_clock w = (clock w (ticks w), w\<lparr>ticks := Suc (ticks w)\<rparr>)"

subsection \<open>File system calls\<close>

definition fs_mkdir :: "('r, 'd) world \<Rightarrow> message + ('r, 'd) world" where
  "fs_mkdir w = (case mkdir_fault w of Some e \<Rightarrow> Inl e | None \<Rightarrow> Inr w)"

definition fs_readdir :: "('r, 'd) world \<Rightarrow> message + string list" where
  "fs_readdir w = (case readdir_fault w of Some e \<Rightarrow> Inl e | None \<Rightarrow> Inr (map fname (files w)))"

definition lookup_file :: "('r, 'd) world \<Rightarrow> string \<Rightarrow> 'r file_entry option" where
  "lookup_file w name = find (\<lambda>f. fname f = name) (files w)"

definition fs_readFile :: "('r, 'd) world \<Rightarrow> string \<Rightarrow> message + 'r content" where
  "fs_readFile w name =
     (case lookup_file w name of
        None \<Rightarrow> Inl ''ENOENT: no such file or directory''
      | Some f \<Rightarrow> if readable f then Inr (content f) else Inl ''EACCES: permission denied'')"

definition fs_stat :: "('r, 'd) world \<Rightarrow> string \<Rightarrow> message + int" where
  "fs_stat w name =
     (case lookup_file w name of
        None \<Rightarrow> Inl ''ENOENT: no such file or directory''
      | Some f \<Rightarrow> if statable f then Inr (mtime f) else Inl ''EACCES: permission denied'')"

definition fs_unlink :: "('r, 'd) world \<Rightarrow> string \<Rightarrow> message + ('r, 'd) world" where
  "fs_unlink w name =
     (case lookup_file w name of
        None \<Rightarrow> Inl ''ENOENT: no such file or directory''
      | Some f \<Rightarrow>
          if removable f then Inr (w\<lparr>files := filter (\<lambda>g. fname g \<noteq> name) (files w)\<rparr>)
          else Inl ''EPERM: operation not permitted'')"

text \<open>
  \<open>fs.writeFile\<close> creates the file or replaces the one of that name; the new
  entry's modification time is the clock's at the write.
\<close>

definition fs_writeFile ::
  "('r, 'd) world \<Rightarrow> string \<Rightarrow> 'r checkpoint \<Rightarrow> (message + unit) \<times> ('r, 'd) world" where
  "fs_writeFile w name cp =
     (let w1 = w\<lparr>writes := Suc (writes w)\<rparr> in
      case write_fault w (writes w) of
        Some e \<Rightarrow> (Inl e, w1)
      | None \<Rightarrow>
          (let (t, w2) = read_clock w1;
               f = \<lparr>fname = name, mtime = ms t, content = Json (Checkpoint cp),
                    readable = True, statable = True, removable = True\<rparr>
           in (Inr (), w2\<lparr>files := filter (\<lambda>g. fname g \<noteq> name) (files w2) @ [f]\<rparr>)))"

definition JSON_parse :: "'r content \<Rightarrow> message + 'r json" where
  "JSON_parse c = (case c of Json j \<Rightarrow> Inr j | Garbled \<Rightarrow> Inl ''Unexpected end of JSON input'')"

subsection \<open>\<open>initialize\<close>, \<open>generateCheckpointFilename\<close>, \<open>saveCheckpoint\<close>\<close>

definition initialize :: "recovery_system \<Rightarrow> ('r, 'd) world \<Rightarrow> message + ('r, 'd) world" where
  "initialize rs w = fs_mkdir w"

text \<open>The base name of a checkpoint file, and its path in the checkpoint directory.\<close>

definition checkpoint_basename :: "string \<Rightarrow> string \<Rightarrow> string" where
  "checkpoint_basename type ts = ''checkpoint_'' @ type @ ''_'' @ ts @ ''.json''"

definition generateCheckpointFilename :: "recovery_system \<Rightarrow> string \<Rightarrow> string \<Rightarrow> string" where
  "generateCheckpointFilename rs type ts = path_join (checkpointDir rs) (checkpoint_basename type ts)"

text \<open>
  \<open>saveCheckpoint(type, data, progress)\<close>: \<open>data.slice(progress)\<close> is
  \<open>drop progress data\<close>. A failed write is logged and thrown again.
\<close>

definition saveCheckpoint ::
  "recovery_system \<Rightarrow> string \<Rightarrow> 'r list \<Rightarrow> nat \<Rightarrow> ('r, 'd) world
     \<Rightarrow> (message + string) \<times> ('r, 'd) world" where
  "saveCheckpoint rs type data prog w =
     (let (t, w1) = read_clock w;
          ts = replace_colon_dot (iso t);
          filename = generateCheckpointFilename rs type ts;
          cp = \<lparr>timestamp = ts, ctype = type, progress = prog,
                 remainingData = drop prog data, processedCount = prog,
                 totalCount = length data\<rparr>
      in case fs_writeFile w1 (checkpoint_basename type ts) cp of
           (Inl e, w2) \<Rightarrow> (Inl e, w2)
         | (Inr _, w2) \<Rightarrow> (Inr filename, w2))"

subsection \<open>\<open>loadLatestCheckpoint\<close>\<close>

definition checkpoint_prefix :: "string \<Rightarrow> string" where
  "checkpoint_prefix type = ''checkpoint_'' @ type @ ''_''"

text \<open>
  The call returns \<open>null\<close> when no name matches, and otherwise whatever
  \<open>JSON.parse\<close> makes of the last name's file: the parsed value is not inspected.
\<close>

definition loadLatestCheckpoint ::
  "recovery_system \<Rightarrow> string \<Rightarrow> ('r, 'd) world \<Rightarrow> message + 'r json" where
  "loadLatestCheckpoint rs type w =
     (case fs_readdir w of
        Inl e \<Rightarrow> Inl e
      | Inr names \<Rightarrow>
          (let checkpointFiles =
                 rev (sort (filter (\<lambda>file. startsWith file (checkpoint_prefix type)) names))
           in if length checkpointFiles = 0 then Inr Null
              else (case fs_readFile w (hd checkpointFiles) of
                      Inl e \<Rightarrow> Inl e
                    | Inr c \<Rightarrow> JSON_parse c)))"

subsection \<open>\<open>parseMaxAge\<close> and \<open>cleanOldCheckpoints\<close>\<close>

text \<open>
  \<open>maxAge.match(/^(\d+)([dw])$/)\<close>: one or more digits, then exactly one of
  \<open>d\<close> and \<open>w\<close>, then the end of the string. The digits and the units are disjoint,
  so the greedy run of digits is the only possible first group. The product is kept as
  a natural number; the source's double holds it exactly below \<open>2^53\<close>, rounds
  monotonically above, and is only ever compared with ages far below that.
\<close>

definition unit_ms :: "char \<Rightarrow> nat" where
  "unit_ms u = (if u = CHR ''d'' then 24 * 60 * 60 * 1000 else 7 * 24 * 60 * 60 * 1000)"

definition parseMaxAge :: "string \<Rightarrow> message + nat" where
  "parseMaxAge maxAge =
     (let val = takeWhile is_digit maxAge; rest = dropWhile is_digit maxAge
      in if val \<noteq> [] \<and> (rest = ''d'' \<or> rest = ''w'')
         then Inr (parseInt val * unit_ms (hd rest))
         else Inl ''Invalid maxAge format. Use format: 7d or 1w'')"

text \<open>
  The body of the \<open>for\<close> loop over the names \<open>readdir\<close> returned. The result's
  first component is the error that left the loop, if any.
\<close>

fun clean_loop ::
  "string \<Rightarrow> int \<Rightarrow> int \<Rightarrow> string list \<Rightarrow> ('r, 'd) world \<Rightarrow> message option \<times> ('r, 'd) world" where
  "clean_loop pre now maxAgeMs [] w = (None, w)"
| "clean_loop pre now maxAgeMs (file # rest) w =
     (if \<not> startsWith file pre then clean_loop pre now maxAgeMs rest w
      else (case fs_stat w file of
              Inl e \<Rightarrow> (Some e, w)
            | Inr m \<Rightarrow>
                if now - m > maxAgeMs
                then (case fs_unlink w file of
                        Inl e \<Rightarrow> (Some e, w)
                      | Inr w1 \<Rightarrow> clean_loop pre now maxAgeMs rest w1)
                else clean_loop pre now maxAgeMs rest w))"

text \<open>The \<open>try\<close> block of \<open>cleanOldCheckpoints\<close>.\<close>

definition clean_try ::
  "recovery_system \<Rightarrow> string \<Rightarrow> string \<Rightarrow> ('r, 'd) world \<Rightarrow> message option \<times> ('r, 'd) world" where
  "clean_try rs type maxAge w =
     (case fs_readdir w of
        Inl e \<Rightarrow> (Some e, w)
      | Inr names \<Rightarrow>
          (let (t, w1) = read_clock w in
           case parseMaxAge maxAge of
             Inl e \<Rightarrow> (Some e, w1)
           | Inr maxAgeMs \<Rightarrow> clean_loop (checkpoint_prefix type) (ms t) (int maxAgeMs) names w1))"

text \<open>
  \<open>cleanOldCheckpoints(type, maxAge)\<close>: the \<open>catch\<close> clause logs the error and
  does not throw it again, so the call returns normally whatever happened inside. The
  first component is what the call throws to its caller.
\<close>

definition cleanOldCheckpoints ::
  "recovery_system \<Rightarrow> string \<Rightarrow> string \<Rightarrow> ('r, 'd) world \<Rightarrow> message option \<times> ('r, 'd) world" where
  "cleanOldCheckpoints rs type maxAge w =
     (case clean_try rs type maxAge w of
        (Some e, w1) \<Rightarrow> (None, w1)
      | (None, w1) \<Rightarrow> (None, w1))"

subsection \<open>\<open>retryOperation\<close>\<close>

text \<open>
  An operation is a zero-argument action on the world that returns a value or throws.
  Beside its result and the world it leaves, \<open>retryOperation\<close> yields the trace of
  what it did itself: each call of the operation, each warning logged (attempt number
  and message) and each \<open>setTimeout\<close> wait (milliseconds).
\<close>

datatype event = Invoke | Warn nat message | Sleep nat

type_synonym ('w, 'a) operation = "'w \<Rightarrow> (message + 'a) \<times> 'w"

text \<open>
  The \<open>throw\<close> after the loop. With \<open>maxRetries = 0\<close> the loop body never ran
  and \<open>lastError.message\<close> is a \<open>TypeError\<close> on \<open>undefined\<close>.
\<close>

definition exhausted :: "recovery_system \<Rightarrow> message option \<Rightarrow> message + 'a" where
  "exhausted rs lastError =
     (case lastError of
        Some e \<Rightarrow> Inl (''Operation failed after '' @ show_nat (maxRetries rs) @ '' attempts: '' @ e)
      | None \<Rightarrow> Inl (''Cannot read properties of undefined (reading '' @ [CHR 0x27] @
                     ''message'' @ [CHR 0x27] @ '')''))"

text \<open>The \<open>for\<close> loop from \<open>attempt\<close> on, with \<open>lastError\<close> as it stands.\<close>

function retry_from ::
  "recovery_system \<Rightarrow> ('w, 'a) operation \<Rightarrow> nat \<Rightarrow> message option \<Rightarrow> 'w \<Rightarrow> event list
     \<Rightarrow> (message + 'a) \<times> 'w \<times> event list" where
  "retry_from rs operation attempt lastError w tr =
     (if attempt \<le> maxRetries rs then
        (case operation w of
           (Inr v, w1) \<Rightarrow> (Inr v, w1, tr @ [Invoke])
         | (Inl e, w1) \<Rightarrow>
             retry_from rs operation (attempt + 1) (Some e) w1
               (if attempt < maxRetries rs
                then tr @ [Invoke, Warn attempt e, Sleep (retryDelay rs * attempt)]
                else tr @ [Invoke, Warn attempt e]))
      else (exhausted rs lastError, w, tr))"
  by pat_completeness auto
termination
  by (relation "measure (\<lambda>(rs, operation, attempt, lastError, w, tr). Suc (maxRetries rs) - attempt)")
    auto

text \<open>\<open>retryOperation(operation, context)\<close>; the context only decorates the log.\<close>

definition retryOperation ::
  "recovery_system \<Rightarrow> ('w, 'a) operation \<Rightarrow> 'c \<Rightarrow> 'w \<Rightarrow> (message + 'a) \<times> 'w \<times> event list" where
  "retryOperation rs operation context w = retry_from rs operation 1 None w []"

text \<open>Reading a trace: how often the operation was called, and the waits in order.\<close>

definition invocations :: "event list \<Rightarrow> nat" where
  "invocations tr = length (filter (\<lambda>ev. ev = Invoke) tr)"

fun sleep_of :: "event \<Rightarrow> nat list" where
  "sleep_of (Sleep d) = [d]"
| "sleep_of _ = []"

definition sleeps :: "event list \<Rightarrow> nat list" where
  "sleeps tr = concat (map sleep_of tr)"

text \<open>
  What an operation does when called again and again: the world after \<open>n\<close> calls,
  and the result of call number \<open>n\<close> (counted from 0).
\<close>

fun world_after :: "('w, 'a) operation \<Rightarrow> 'w \<Rightarrow> nat \<Rightarrow> 'w" where
  "world_after operation w 0 = w"
| "world_after operation w (Suc n) = world_after operation (snd (operation w)) n"

definition outcome_at :: "('w, 'a) operation \<Rightarrow> 'w \<Rightarrow> nat \<Rightarrow> message + 'a" where
  "outcome_at operation w n = fst (operation (world_after operation w n))"

text \<open>The operation fails on each of its first \<open>k\<close> calls.\<close>

definition fails_first :: "('w, 'a) operation \<Rightarrow> 'w \<Rightarrow> nat \<Rightarrow> bool" where
  "fails_first operation w k = list_all (\<lambda>j. isl (outcome_at operation w j)) [0..<k]"

text \<open>
  What one failed attempt leaves in the trace: the call, the warning with the error of
  that call, and the wait unless it was the last attempt allowed.
\<close>

definition failed_attempt ::
  "recovery_system \<Rightarrow> ('w, 'a) operation \<Rightarrow> 'w \<Rightarrow> nat \<Rightarrow> event list" where
  "failed_attempt rs operation w attempt =
     [Invoke, Warn attempt (projl (outcome_at operation w (attempt - 1)))] @
     (if attempt < maxRetries rs then [Sleep (retryDelay rs * attempt)] else [])"

section \<open>The orchestrator: \<open>ImportManager\<close>\<close>

record import_manager =
  supportedTypes :: "string list"
  checkpointInterval :: nat

definition importManager :: import_manager where
  "importManager = \<lparr>supportedTypes = [''category'', ''listing''], checkpointInterval = 50\<rparr>"

text \<open>
  An importer, as far as \<open>import\<close> uses it. \<open>validate\<close> is asynchronous: beside
  the document or the error it ends with, the model keeps when the promise settles,
  counted in turns of the event loop after the call (0 for a promise that is already
  settled when \<open>validate\<close> returns, as after a \<open>throw\<close> before the first
  \<open>await\<close>).
\<close>

record ('r, 'd) importer =
  validate :: "'r \<Rightarrow> message + 'd"
  settles :: "'r \<Rightarrow> nat"

text \<open>
  The collaborators of \<open>import\<close>: the two importers, the configured
  \<open>import.batchSize\<close>, and \<open>transformer.transform(inputPath, type)\<close>.
\<close>

record ('r, 'd) env =
  categoryImporter :: "('r, 'd) importer"
  listingImporter :: "('r, 'd) importer"
  batchSize :: nat
  transform :: "string \<Rightarrow> string \<Rightarrow> message + 'r list"

record options =
  resume :: bool
  continueOnError :: bool

text \<open>
  The batch number \<open>i / importConfig.batchSize\<close> is a JavaScript division: a whole
  number when the batch size divides \<open>i\<close>, a fraction when it does not, and
  \<open>NaN\<close> or \<open>Infinity\<close> when the batch size is 0.
\<close>

datatype batch_number = Whole nat | Fraction nat nat | Not_finite

definition js_div :: "nat \<Rightarrow> nat \<Rightarrow> batch_number" where
  "js_div i b = (if b = 0 then Not_finite else if i mod b = 0 then Whole (i div b) else Fraction i b)"

record 'r import_error =
  batch :: batch_number
  error :: message
  items :: "'r list"

record 'r import_result =
  success :: nat
  failed :: nat
  errors :: "'r import_error list"
  checkpoints :: "string list"

definition getImporter :: "('r, 'd) env \<Rightarrow> string \<Rightarrow> message + ('r, 'd) importer" where
  "getImporter env type =
     (if type = ''category'' then Inr (categoryImporter env)
      else if type = ''listing'' then Inr (listingImporter env)
      else Inl (''No importer found for type: '' @ type))"

text \<open>\<open>transformedData.slice(i, i + batchSize)\<close>.\<close>

definition slice :: "'r list \<Rightarrow> nat \<Rightarrow> nat \<Rightarrow> 'r list" where
  "slice xs i j = take (j - i) (drop i xs)"

text \<open>
  \<open>Promise.all(batch.map(item => importer.validate(item)))\<close> rejects with the
  rejection that settles first, not with the first in the batch. Among rejections that
  settle in the same turn the reactions run in the order \<open>Promise.all\<close> subscribed,
  which is the order of the batch. \<open>first_rejection\<close> is that rejection with the turn
  it settles in; \<open>documents\<close> are the results of the validations that succeed.
\<close>

fun first_rejection :: "('r, 'd) importer \<Rightarrow> 'r list \<Rightarrow> (nat \<times> message) option" where
  "first_rejection importer [] = None"
| "first_rejection importer (item # rest) =
     (case validate importer item of
        Inr doc \<Rightarrow> first_rejection importer rest
      | Inl e \<Rightarrow>
          (case first_rejection importer rest of
             None \<Rightarrow> Some (settles importer item, e)
           | Some (t, e') \<Rightarrow>
               if settles importer item \<le> t then Some (settles importer item, e) else Some (t, e')))"

fun documents :: "('r, 'd) importer \<Rightarrow> 'r list \<Rightarrow> 'd list" where
  "documents importer [] = []"
| "documents importer (item # rest) =
     (case validate importer item of
        Inr doc \<Rightarrow> doc # documents importer rest
      | Inl e \<Rightarrow> documents importer rest)"

definition validate_batch :: "('r, 'd) importer \<Rightarrow> 'r list \<Rightarrow> message + 'd list" where
  "validate_batch importer records =
     (case first_rejection importer records of
        Some (t, e) \<Rightarrow> Inl e
      | None \<Rightarrow> Inr (documents importer records))"

text \<open>
  The operation handed to \<open>retryOperation\<close>: open a transaction, stage every
  document, commit. The document store accepts or rejects the attempt as a whole.
\<close>

definition commit_batch :: "'d list \<Rightarrow> (('r, 'd) world, unit) operation" where
  "commit_batch docs w =
     (case commit_fault w (commits w) of
        Some e \<Rightarrow> (Inl e, w\<lparr>commits := Suc (commits w)\<rparr>)
      | None \<Rightarrow> (Inr (), w\<lparr>commits := Suc (commits w), committed := committed w @ [docs]\<rparr>))"

text \<open>
  The inner \<open>try\<close> block for the batch starting at \<open>i\<close>: validate, commit with
  retry, count the success, save a checkpoint at intervals. The first component is the
  error that left the block, if any.
\<close>

definition try_batch ::
  "import_manager \<Rightarrow> recovery_system \<Rightarrow> ('r, 'd) env \<Rightarrow> ('r, 'd) importer \<Rightarrow> string
     \<Rightarrow> 'r list \<Rightarrow> nat \<Rightarrow> 'r import_result \<Rightarrow> ('r, 'd) world
     \<Rightarrow> message option \<times> 'r import_result \<times> ('r, 'd) world" where
  "try_batch mgr rs env importer type transformedData i results w =
     (let batch = slice transformedData i (i + batchSize env) in
      case validate_batch importer batch of
        Inl e \<Rightarrow> (Some e, results, w)
      | Inr validatedBatch \<Rightarrow>
          (case retryOperation rs (commit_batch validatedBatch) (js_div i (batchSize env), type) w of
             (Inl e, w1, tr) \<Rightarrow> (Some e, results, w1)
           | (Inr u, w1, tr) \<Rightarrow>
               (let results1 = results\<lparr>success := success results + length batch\<rparr> in
                if i > 0 \<and> i mod checkpointInterval mgr = 0 then
                  (case saveCheckpoint rs type transformedData (i + length batch) w1 of
                     (Inl e, w2) \<Rightarrow> (Some e, results1, w2)
                   | (Inr checkpointFile, w2) \<Rightarrow>
                       (None, results1\<lparr>checkpoints := checkpoints results1 @ [checkpointFile]\<rparr>, w2))
                else (None, results1, w1))))"

text \<open>The \<open>catch\<close> clause of the batch: count the batch as failed and record the error.\<close>

definition record_failure ::
  "('r, 'd) env \<Rightarrow> 'r list \<Rightarrow> nat \<Rightarrow> message \<Rightarrow> 'r import_result \<Rightarrow> 'r import_result" where
  "record_failure env transformedData i e results =
     (let batch = slice transformedData i (i + batchSize env) in
      results\<lparr>failed := failed results + length batch,
              errors := errors results @
                [\<lparr>batch = js_div i (batchSize env), error = e, items = batch\<rparr>]\<rparr>)"

text \<open>
  The \<open>for\<close> loop over the batches, from index \<open>i\<close> on. It returns the error that
  aborted the run, if any, with the results and the world at that point. A batch size
  of 0 never advances \<open>i\<close>, so the loop need not end: not returning is \<open>None\<close>.
\<close>

partial_function (option) import_loop ::
  "import_manager \<Rightarrow> recovery_system \<Rightarrow> ('r, 'd) env \<Rightarrow> ('r, 'd) importer \<Rightarrow> options \<Rightarrow> string
     \<Rightarrow> 'r list \<Rightarrow> nat \<Rightarrow> 'r import_result \<Rightarrow> ('r, 'd) world
     \<Rightarrow> (message option \<times> 'r import_result \<times> ('r, 'd) world) option" where
  "import_loop mgr rs env importer opts type transformedData i results w =
     (if i < length transformedData then
        (case try_batch mgr rs env importer type transformedData i results w of
           (None, results1, w1) \<Rightarrow>
             import_loop mgr rs env importer opts type transformedData (i + batchSize env) results1 w1
         | (Some e, results1, w1) \<Rightarrow>
             (let results2 = record_failure env transformedData i e results1 in
              if \<not> continueOnError opts then Some (Some e, results2, w1)
              else import_loop mgr rs env importer opts type transformedData (i + batchSize env)
                     results2 w1))
      else Some (None, results, w))"

text \<open>What \<open>import\<close> hands its caller: the results, or the error it throws.\<close>

datatype 'a completion = Returned 'a | Thrown message

text \<open>
  The start of \<open>import\<close>. With \<open>options.resume\<close> the latest checkpoint is
  loaded and, when the value is truthy, its \<open>remainingData\<close> and
  \<open>processedCount\<close> are read off, whatever the value is: a value without these
  fields leaves the data \<open>undefined\<close>, so that it is taken from the transformer,
  and the start index \<open>undefined\<close> too (\<open>None\<close>). Without a checkpoint the
  data comes from the transformer and the start index is 0.
\<close>

definition import_start ::
  "recovery_system \<Rightarrow> ('r, 'd) env \<Rightarrow> string \<Rightarrow> string \<Rightarrow> options \<Rightarrow> ('r, 'd) world
     \<Rightarrow> message + (nat option \<times> 'r list)" where
  "import_start rs env inputPath type opts w =
     (case (if resume opts then loadLatestCheckpoint rs type w else Inr Null) of
        Inl e \<Rightarrow> Inl e
      | Inr (Checkpoint checkpoint) \<Rightarrow>
          Inr (Some (processedCount checkpoint), remainingData checkpoint)
      | Inr Null \<Rightarrow>
          (case transform env inputPath type of
             Inl e \<Rightarrow> Inl e
           | Inr transformedData \<Rightarrow> Inr (Some 0, transformedData))
      | Inr (Other truthy) \<Rightarrow>
          (case transform env inputPath type of
             Inl e \<Rightarrow> Inl e
           | Inr transformedData \<Rightarrow> Inr (if truthy then None else Some 0, transformedData)))"

definition empty_results :: "'r import_result" where
  "empty_results = \<lparr>success = 0, failed = 0, errors = [], checkpoints = []\<rparr>"

text \<open>
  \<open>import(inputPath, type, options)\<close>. The outer \<open>catch\<close> logs and throws again,
  so every error inside reaches the caller; the world is returned either way, since
  commits and files written before an error stay. With the start index
  \<open>undefined\<close> the loop condition \<open>i < transformedData.length\<close> is false at
  once and no batch is processed.
\<close>

definition import ::
  "import_manager \<Rightarrow> recovery_system \<Rightarrow> ('r, 'd) env \<Rightarrow> string \<Rightarrow> string \<Rightarrow> options
     \<Rightarrow> ('r, 'd) world \<Rightarrow> ('r import_result completion \<times> ('r, 'd) world) option" where
  "import mgr rs env inputPath type opts w =
     (case initialize rs w of
        Inl e \<Rightarrow> Some (Thrown e, w)
      | Inr w0 \<Rightarrow>
          (case import_start rs env inputPath type opts w0 of
             Inl e \<Rightarrow> Some (Thrown e, w0)
           | Inr (startIndex, transformedData) \<Rightarrow>
               (case getImporter env type of
                  Inl e \<Rightarrow> Some (Thrown e, w0)
                | Inr importer \<Rightarrow>
                    (case (case startIndex of
                             None \<Rightarrow> Some (None, empty_results, w0)
                           | Some i \<Rightarrow>
                               import_loop mgr rs env importer opts type transformedData i
                                 empty_results w0) of
                       None \<Rightarrow> None
                     | Some (Some e, results, w1) \<Rightarrow> Some (Thrown e, w1)
                     | Some (None, results, w1) \<Rightarrow>
                         (case cleanOldCheckpoints rs type ''7d'' w1 of
                            (Some e, w2) \<Rightarrow> Some (Thrown e, w2)
                          | (None, w2) \<Rightarrow> Some (Returned results, w2))))))"

section \<open>Predicates the properties are stated with\<close>

text \<open>
  A duration string as the documentation describes it, \<open>7d\<close> or \<open>1w\<close>: one or
  more digits followed by the single letter \<open>d\<close> or \<open>w\<close>.
\<close>

definition duration_form :: "string \<Rightarrow> bool" where
  "duration_form s =
     (s \<noteq> [] \<and> butlast s \<noteq> [] \<and> list_all is_digit (butlast s) \<and> (last s = CHR ''d'' \<or> last s = CHR ''w''))"

text \<open>
  A file is expired at time \<open>now\<close> when \<open>maxAge\<close> parses and the file's age
  exceeds it.
\<close>

definition expired :: "string \<Rightarrow> int \<Rightarrow> 'r file_entry \<Rightarrow> bool" where
  "expired maxAge now f =
     (case parseMaxAge maxAge of Inl e \<Rightarrow> False | Inr maxAgeMs \<Rightarrow> now - mtime f > int maxAgeMs)"


text \<open>How many records a finished run counted, as succeeded or failed.\<close>

definition counted :: "'r import_result completion \<Rightarrow> nat" where
  "counted c = (case c of Returned results \<Rightarrow> success results + failed results | Thrown e \<Rightarrow> 0)"

section \<open>Example collaborators and worlds\<close>

text \<open>
  Concrete inputs on which the program is run below. Records and documents are
  numbers, so \<open>[0..<n]\<close> is a sequence of \<open>n\<close> records; the example importers
  accept every record unchanged.
\<close>

text \<open>Two operations on a world that only counts calls.\<close>

definition flaky :: "(nat, string) operation" where
  "flaky calls = (if calls < 2 then Inl ''ETIMEDOUT'' else Inr ''done'', Suc calls)"

definition always_failing :: "(nat, string) operation" where
  "always_failing calls = (Inl (''ETIMEDOUT on call '' @ show_nat calls), Suc calls)"

text \<open>A clock that starts at 2024-01-01T00:00:00Z and advances a second per reading.\<close>

definition demo_clock :: "nat \<Rightarrow> instant" where
  "demo_clock n = \<lparr>ms = 1704067200000 + 1000 * int n,
                   iso = ''2024-01-01T00:00:0'' @ [digit_char n] @ ''.000Z''\<rparr>"

text \<open>The recovery system of a process started in \<open>/srv/import\<close>.\<close>

definition recovery :: recovery_system where
  "recovery = recoverySystem ''/srv/import''"

text \<open>An importer that accepts every record at once, as the document it is.\<close>

definition accepting :: "(nat, nat) importer" where
  "accepting = \<lparr>validate = Inr, settles = (\<lambda>r. 0)\<rparr>"

definition demo_env :: "nat \<Rightarrow> nat \<Rightarrow> (nat, nat) env" where
  "demo_env n b = \<lparr>categoryImporter = accepting, listingImporter = accepting, batchSize = b,
                   transform = (\<lambda>inputPath type. Inr [0..<n])\<rparr>"

text \<open>
  An importer that rejects record 2 after an \<open>await\<close> (its tags are no array) and
  record 3 before any \<open>await\<close> (it has no title), as \<open>ListingImporter.validate\<close>
  does.
\<close>

definition strict_importer :: "(nat, nat) importer" where
  "strict_importer =
     \<lparr>validate = (\<lambda>r. if r = 2 then Inl ''tags must be an array''
                      else if r = 3 then Inl ''title is required'' else Inr r),
      settles = (\<lambda>r. if r = 3 then 0 else 1)\<rparr>"

definition strict_env :: "(nat, nat) env" where
  "strict_env = \<lparr>categoryImporter = accepting, listingImporter = strict_importer, batchSize = 2,
                  transform = (\<lambda>inputPath type. Inr [0, 1, 2, 3, 4])\<rparr>"

text \<open>An empty checkpoint directory, a disk and a document store without faults.\<close>

definition fresh_world :: "(nat, nat) world" where
  "fresh_world = \<lparr>files = [], mkdir_fault = None, readdir_fault = None, clock = demo_clock,
                   ticks = 0, write_fault = (\<lambda>n. None), writes = 0,
                   commit_fault = (\<lambda>n. None), commits = 0, committed = []\<rparr>"

definition disk_full_world :: "(nat, nat) world" where
  "disk_full_world = fresh_world\<lparr>write_fault := (\<lambda>n. Some ''ENOSPC: no space left on device'')\<rparr>"

definition offline_world :: "(nat, nat) world" where
  "offline_world = fresh_world\<lparr>commit_fault := (\<lambda>n. Some ''ECONNRESET'')\<rparr>"

text \<open>Checkpoints of a sequence of 120 records, and files that hold them.\<close>

definition demo_checkpoint :: "string \<Rightarrow> string \<Rightarrow> nat \<Rightarrow> nat checkpoint" where
  "demo_checkpoint ts type k =
     \<lparr>timestamp = ts, ctype = type, progress = k, remainingData = [k..<120],
      processedCount = k, totalCount = 120\<rparr>"

definition checkpoint_50_of_120 :: "nat checkpoint" where
  "checkpoint_50_of_120 = demo_checkpoint ''2023-12-31T00-00-00-000Z'' ''listing'' 50"

definition demo_file :: "string \<Rightarrow> int \<Rightarrow> nat content \<Rightarrow> nat file_entry" where
  "demo_file name t c =
     \<lparr>fname = name, mtime = t, content = c, readable = True, statable = True, removable = True\<rparr>"

definition latest_listing_file :: "nat file_entry" where
  "latest_listing_file =
     demo_file ''checkpoint_listing_2023-12-31T00-00-00-000Z.json'' 1703980800000
       (Json (Checkpoint checkpoint_50_of_120))"

definition old_listing_file :: "nat file_entry" where
  "old_listing_file =
     demo_file ''checkpoint_listing_2023-12-20T00-00-00-000Z.json'' 1703030400000
       (Json (Checkpoint (demo_checkpoint ''2023-12-20T00-00-00-000Z'' ''listing'' 100)))"

definition old_category_file :: "nat file_entry" where
  "old_category_file =
     demo_file ''checkpoint_category_2023-12-20T00-00-00-000Z.json'' 1703030400000
       (Json (Checkpoint (demo_checkpoint ''2023-12-20T00-00-00-000Z'' ''category'' 100)))"

definition notes_file :: "nat file_entry" where
  "notes_file = demo_file ''notes.txt'' 0 Garbled"

definition resume_world :: "(nat, nat) world" where
  "resume_world = fresh_world\<lparr>files := [latest_listing_file]\<rparr>"

definition store_world :: "(nat, nat) world" where
  "store_world =
     fresh_world\<lparr>files := [old_category_file, latest_listing_file, notes_file, old_listing_file]\<rparr>"

section \<open>Auxiliary facts\<close>

declare retry_from.simps [simp del]
declare show_nat.simps [simp del]

subsection \<open>The checkpoint store\<close>

lemma sorted_le_last: "sorted ys \<Longrightarrow> y \<in> set ys \<Longrightarrow> y \<le> last ys"
  by (induction ys) auto

lemma hd_rev_sort_Max: "xs \<noteq> [] \<Longrightarrow> hd (rev (sort xs)) = Max (set xs)"
proof -
  assume ne: "xs \<noteq> []"
  then have "hd (rev (sort xs)) = last (sort xs)" by (simp add: hd_rev)
  also have "\<dots> = Max (set (sort xs))"
  proof (rule Max_eqI[symmetric])
    show "finite (set (sort xs))" by simp
    show "y \<le> last (sort xs)" if "y \<in> set (sort xs)" for y
      using that sorted_le_last[OF sorted_sort] by blast
    show "last (sort xs) \<in> set (sort xs)" using ne by (metis last_in_set length_0_conv length_sort)
  qed
  finally show ?thesis by simp
qed

lemma find_by_name:
  "distinct (map fname fs) \<Longrightarrow> f \<in> set fs \<Longrightarrow> find (\<lambda>g. fname g = fname f) fs = Some f"
  by (induction fs) (auto simp: rev_image_eqI)

lemma parseMaxAge_Inr_iff: "(\<exists>m. parseMaxAge s = Inr m) = duration_form s"
proof
  assume "\<exists>m. parseMaxAge s = Inr m"
  then have v: "takeWhile is_digit s \<noteq> []"
    and r: "dropWhile is_digit s = ''d'' \<or> dropWhile is_digit s = ''w''"
    by (auto simp: parseMaxAge_def Let_def split: if_splits)
  have s: "s = takeWhile is_digit s @ dropWhile is_digit s" by simp
  from r obtain u where u: "dropWhile is_digit s = [u]" "u = CHR ''d'' \<or> u = CHR ''w''" by auto
  with s have s': "s = takeWhile is_digit s @ [u]" by simp
  have "butlast s = takeWhile is_digit s" "last s = u"
    by (subst s', simp)+
  moreover have "list_all is_digit (takeWhile is_digit s)"
    by (auto simp: list_all_iff dest: set_takeWhileD)
  ultimately show "duration_form s" using v u s' by (auto simp: duration_form_def)
next
  assume d: "duration_form s"
  then have s: "s = butlast s @ [last s]" and b: "butlast s \<noteq> []" "list_all is_digit (butlast s)"
    and l: "last s = CHR ''d'' \<or> last s = CHR ''w''"
    by (auto simp: duration_form_def)
  from l have nd: "\<not> is_digit (last s)" by (auto simp: is_digit_def)
  have "takeWhile is_digit s = butlast s"
    by (subst s) (use b nd in \<open>auto simp: list_all_iff takeWhile_append2\<close>)
  moreover have "dropWhile is_digit s = [last s]"
    by (subst s) (use b nd in \<open>auto simp: list_all_iff dropWhile_append2\<close>)
  ultimately show "\<exists>m. parseMaxAge s = Inr m" using b l by (auto simp: parseMaxAge_def Let_def)
qed

lemma clean_loop_frame:
  "distinct (map fname (files w)) \<Longrightarrow> clean_loop pre now m names w = (r, w') \<Longrightarrow>
     set (files w') \<subseteq> set (files w) \<and>
     (\<forall>f \<in> set (files w). f \<notin> set (files w') \<longrightarrow> startsWith (fname f) pre \<and> now - mtime f > m)"
proof (induction names arbitrary: w)
  case Nil
  then show ?case by simp
next
  case (Cons name rest)
  show ?case
  proof (cases "startsWith name pre")
    case False
    with Cons show ?thesis by simp
  next
    case True
    show ?thesis
    proof (cases "fs_stat w name")
      case (Inl e)
      with True Cons.prems show ?thesis by auto
    next
      case (Inr mt)
      show ?thesis
      proof (cases "now - mt > m")
        case False
        with True Inr Cons show ?thesis by simp
      next
        case old: True
        show ?thesis
        proof (cases "fs_unlink w name")
          case (Inl e)
          with True Inr old Cons.prems show ?thesis by auto
        next
          case unl: (Inr w1)
          from Inr obtain f0 where f0: "lookup_file w name = Some f0" "mtime f0 = mt"
            by (auto simp: fs_stat_def split: option.splits if_splits)
          from unl have w1: "files w1 = filter (\<lambda>g. fname g \<noteq> name) (files w)"
            by (auto simp: fs_unlink_def split: option.splits if_splits)
          have d1: "distinct (map fname (files w1))"
            using Cons.prems(1) by (simp add: w1 distinct_map_filter)
          have run: "clean_loop pre now m rest w1 = (r, w')"
            using Cons.prems(2) True Inr old unl by simp
          note IH = Cons.IH[OF d1 run]
          have gone: "startsWith (fname f) pre \<and> now - mtime f > m"
            if "f \<in> set (files w)" "f \<notin> set (files w1)" for f
          proof -
            from that have fn: "fname f = name" by (auto simp: w1)
            with that(1) Cons.prems(1) have "lookup_file w name = Some f"
              unfolding lookup_file_def using find_by_name by blast
            with f0 have "f = f0" by simp
            with fn True old f0 show ?thesis by simp
          qed
          show ?thesis using IH gone by (auto simp: w1)
        qed
      qed
    qed
  qed
qed


lemma sort_Nil_iff: "(sort xs = []) = (xs = [])"
  by (metis length_0_conv length_sort)

lemma loadLatest_unfold:
  "readdir_fault w = None \<Longrightarrow>
   filter (\<lambda>file. startsWith file (checkpoint_prefix type)) (map fname (files w)) \<noteq> [] \<Longrightarrow>
   loadLatestCheckpoint rs type w =
     (case fs_readFile w (hd (rev (sort (filter (\<lambda>file. startsWith file (checkpoint_prefix type))
                                            (map fname (files w)))))) of
        Inl e \<Rightarrow> Inl e
      | Inr c \<Rightarrow> JSON_parse c)"
  by (simp add: loadLatestCheckpoint_def fs_readdir_def Let_def sort_Nil_iff)

lemma loadLatest_pick:
  assumes rd: "readdir_fault w = None" and d: "distinct (map fname (files w))"
    and f: "f \<in> set (files w)" and p: "startsWith (fname f) (checkpoint_prefix type)"
    and mx: "\<forall>g \<in> set (files w). startsWith (fname g) (checkpoint_prefix type) \<longrightarrow> fname g \<le> fname f"
  shows "loadLatestCheckpoint rs type w =
           (if readable f then (case content f of Json j \<Rightarrow> Inr j
                                | Garbled \<Rightarrow> Inl ''Unexpected end of JSON input'')
            else Inl ''EACCES: permission denied'')"
proof -
  define cf where "cf = filter (\<lambda>file. startsWith file (checkpoint_prefix type)) (map fname (files w))"
  have in_cf: "fname f \<in> set cf" using f p by (auto simp: cf_def)
  from length_pos_if_in_set[OF in_cf] have ne: "cf \<noteq> []" by (metis length_greater_0_conv)
  have "Max (set cf) = fname f"
  proof (rule Max_eqI)
    show "finite (set cf)" by simp
    show "y \<le> fname f" if "y \<in> set cf" for y using that mx by (auto simp: cf_def)
    show "fname f \<in> set cf" by (rule in_cf)
  qed
  with ne have hd: "hd (rev (sort cf)) = fname f" by (simp add: hd_rev_sort_Max)
  have lk: "lookup_file w (fname f) = Some f"
    unfolding lookup_file_def using d f by (rule find_by_name)
  have "loadLatestCheckpoint rs type w =
          (case fs_readFile w (hd (rev (sort cf))) of
             Inl e \<Rightarrow> Inl e
           | Inr c \<Rightarrow> JSON_parse c)"
    unfolding cf_def using rd ne[unfolded cf_def] by (rule loadLatest_unfold)
  then show ?thesis
    using hd lk by (simp add: fs_readFile_def JSON_parse_def split: content.splits)
qed

lemma loadLatest_none:
  assumes rd: "readdir_fault w = None"
    and no: "list_all (\<lambda>g. \<not> startsWith (fname g) (checkpoint_prefix type)) (files w)"
  shows "loadLatestCheckpoint rs type w = Inr Null"
proof -
  have "filter (\<lambda>file. startsWith file (checkpoint_prefix type)) (map fname (files w)) = []"
    using no by (auto simp: list_all_iff filter_empty_conv)
  then show ?thesis using rd by (simp add: loadLatestCheckpoint_def fs_readdir_def)
qed

lemma loadLatest_unlistable:
  "readdir_fault w = Some e \<Longrightarrow> loadLatestCheckpoint rs type w = Inl e"
  by (simp add: loadLatestCheckpoint_def fs_readdir_def)

lemma append_same_le: "(p @ xs \<le> p @ ys) = (xs \<le> (ys :: string))"
  by (induction p) simp_all

lemma append_suffix_le:
  "length t1 = length t2 \<Longrightarrow> (t1 @ s \<le> t2 @ s) = (t1 \<le> (t2 :: string))"
  by (induction t1 t2 rule: list_induct2) simp_all

lemma basename_order:
  assumes "length t1 = length t2"
  shows "(checkpoint_basename type t1 \<le> checkpoint_basename type t2) = (t1 \<le> t2)"
  using assms by (simp add: checkpoint_basename_def append_same_le append_suffix_le)

subsection \<open>Retrying\<close>

lemma world_after_Suc: "world_after operation w (Suc n) = snd (operation (world_after operation w n))"
  by (induction n arbitrary: w) simp_all

lemma operation_at:
  "operation (world_after operation w n) = (outcome_at operation w n, world_after operation w (Suc n))"
  by (simp add: outcome_at_def world_after_Suc del: world_after.simps)

lemma fails_first_iff: "fails_first operation w k = (\<forall>j<k. isl (outcome_at operation w j))"
  by (auto simp: fails_first_def list_all_iff)

lemma retry_from_succeeds:
  "j + k < maxRetries rs \<Longrightarrow> \<forall>i<k. isl (outcome_at operation w (j + i)) \<Longrightarrow>
   outcome_at operation w (j + k) = Inr v \<Longrightarrow>
   retry_from rs operation (Suc j) lastError (world_after operation w j) tr
     = (Inr v, world_after operation w (Suc (j + k)),
        tr @ concat (map (failed_attempt rs operation w) [Suc j..<Suc (j + k)]) @ [Invoke])"
proof (induction k arbitrary: j lastError tr)
  case 0
  then show ?case
    by (subst retry_from.simps) (simp add: operation_at del: world_after.simps)
next
  case (Suc k)
  from Suc.prems(2) have "isl (outcome_at operation w j)" by force
  then obtain e where e: "outcome_at operation w j = Inl e" by (auto simp: isl_def)
  have lt: "Suc j < maxRetries rs" and le: "Suc j + k < maxRetries rs"
    using Suc.prems(1) by simp_all
  have ff: "\<forall>i<k. isl (outcome_at operation w (Suc j + i))"
    using Suc.prems(2) by (metis Suc_less_eq add_Suc_right add_Suc)
  have out: "outcome_at operation w (Suc j + k) = Inr v" using Suc.prems(3) by simp
  have fa: "failed_attempt rs operation w (Suc j) = [Invoke, Warn (Suc j) e, Sleep (retryDelay rs * Suc j)]"
    using lt e by (simp add: failed_attempt_def)
  have "retry_from rs operation (Suc j) lastError (world_after operation w j) tr
      = retry_from rs operation (Suc (Suc j)) (Some e) (world_after operation w (Suc j))
          (tr @ failed_attempt rs operation w (Suc j))"
    using lt e by (subst retry_from.simps) (simp add: operation_at fa del: world_after.simps)
  also have "\<dots> = (Inr v, world_after operation w (Suc (Suc j + k)),
        (tr @ failed_attempt rs operation w (Suc j))
          @ concat (map (failed_attempt rs operation w) [Suc (Suc j)..<Suc (Suc j + k)]) @ [Invoke])"
    by (rule Suc.IH[OF le ff out])
  also have "[Suc j..<Suc (j + Suc k)] = Suc j # [Suc (Suc j)..<Suc (Suc j + k)]"
    by (simp add: upt_conv_Cons)
  then have "(tr @ failed_attempt rs operation w (Suc j))
          @ concat (map (failed_attempt rs operation w) [Suc (Suc j)..<Suc (Suc j + k)]) @ [Invoke]
        = tr @ concat (map (failed_attempt rs operation w) [Suc j..<Suc (j + Suc k)]) @ [Invoke]"
    by simp
  finally show ?case by simp
qed

lemma retry_from_exhausted:
  "maxRetries rs - j = n \<Longrightarrow> j \<le> maxRetries rs \<Longrightarrow>
   \<forall>i<n. isl (outcome_at operation w (j + i)) \<Longrightarrow>
   retry_from rs operation (Suc j) lastError (world_after operation w j) tr
     = (exhausted rs (if n = 0 then lastError
                      else Some (projl (outcome_at operation w (maxRetries rs - 1)))),
        world_after operation w (maxRetries rs),
        tr @ concat (map (failed_attempt rs operation w) [Suc j..<Suc (maxRetries rs)]))"
proof (induction n arbitrary: j lastError tr)
  case 0
  then have j: "j = maxRetries rs" by simp
  show ?case
    unfolding j by (subst retry_from.simps) simp
next
  case (Suc n)
  from Suc.prems(1) have lt: "j < maxRetries rs" and n: "maxRetries rs - Suc j = n"
    and le: "Suc j \<le> maxRetries rs" by simp_all
  from Suc.prems(3) have "isl (outcome_at operation w j)" by force
  then obtain e where e: "outcome_at operation w j = Inl e" by (auto simp: isl_def)
  have ff: "\<forall>i<n. isl (outcome_at operation w (Suc j + i))"
    using Suc.prems(3) by (metis Suc_less_eq add_Suc_right add_Suc)
  have fa: "failed_attempt rs operation w (Suc j) =
      (if Suc j < maxRetries rs then [Invoke, Warn (Suc j) e, Sleep (retryDelay rs * Suc j)]
       else [Invoke, Warn (Suc j) e])"
    using e by (simp add: failed_attempt_def)
  have "retry_from rs operation (Suc j) lastError (world_after operation w j) tr
      = retry_from rs operation (Suc (Suc j)) (Some e) (world_after operation w (Suc j))
          (tr @ failed_attempt rs operation w (Suc j))"
    using le e by (subst retry_from.simps) (simp add: operation_at fa del: world_after.simps)
  also have "\<dots> = (exhausted rs (if n = 0 then Some e
                      else Some (projl (outcome_at operation w (maxRetries rs - 1)))),
        world_after operation w (maxRetries rs),
        (tr @ failed_attempt rs operation w (Suc j))
          @ concat (map (failed_attempt rs operation w) [Suc (Suc j)..<Suc (maxRetries rs)]))"
    by (rule Suc.IH[OF n le ff])
  also have "(if n = 0 then Some e else Some (projl (outcome_at operation w (maxRetries rs - 1))))
      = Some (projl (outcome_at operation w (maxRetries rs - 1)))"
  proof (cases "n = 0")
    case True
    with n lt have "maxRetries rs - 1 = j" by simp
    with e True show ?thesis by simp
  qed simp
  also have "(tr @ failed_attempt rs operation w (Suc j))
          @ concat (map (failed_attempt rs operation w) [Suc (Suc j)..<Suc (maxRetries rs)])
      = tr @ concat (map (failed_attempt rs operation w) [Suc j..<Suc (maxRetries rs)])"
    using upt_conv_Cons[of "Suc j" "Suc (maxRetries rs)"] lt by (simp del: upt_Suc)
  finally show ?case by simp
qed

lemma invocations_failed_attempts:
  "invocations (concat (map (failed_attempt rs operation w) [a..<b])) = b - a"
  by (induction b) (simp_all add: invocations_def failed_attempt_def Suc_diff_le)

lemma sleeps_failed_attempts:
  "b \<le> maxRetries rs \<Longrightarrow>
   sleeps (concat (map (failed_attempt rs operation w) [a..<b])) = map (\<lambda>n. retryDelay rs * n) [a..<b]"
  by (induction b) (simp_all add: sleeps_def failed_attempt_def)

lemma sleeps_all_failed_attempts:
  "sleeps (concat (map (failed_attempt rs operation w) [a..<Suc (maxRetries rs)]))
     = map (\<lambda>n. retryDelay rs * n) [a..<maxRetries rs]"
proof (cases "a \<le> maxRetries rs")
  case True
  then show ?thesis
    using sleeps_failed_attempts[of "maxRetries rs" rs operation w a]
    by (simp add: sleeps_def failed_attempt_def)
next
  case False
  then show ?thesis by (simp add: sleeps_def)
qed






subsection \<open>Pruning\<close>

lemma clean_never_throws: "fst (cleanOldCheckpoints rs type maxAge w) = None"
  by (simp add: cleanOldCheckpoints_def split: prod.splits option.splits)

lemma clean_keeps_world:
  "snd (cleanOldCheckpoints rs type maxAge w) = snd (clean_try rs type maxAge w)"
  by (cases "clean_try rs type maxAge w") (auto simp: cleanOldCheckpoints_def split: option.splits)

lemma clean_try_files:
  "clean_try rs type maxAge w = (r, w') \<Longrightarrow> distinct (map fname (files w)) \<Longrightarrow>
     set (files w') \<subseteq> set (files w) \<and>
     (\<forall>f \<in> set (files w). f \<notin> set (files w') \<longrightarrow>
        startsWith (fname f) (checkpoint_prefix type) \<and> expired maxAge (ms (clock w (ticks w))) f)"
proof (cases "fs_readdir w")
  case (Inl e)
  assume "clean_try rs type maxAge w = (r, w')"
  with Inl show ?thesis by (auto simp: clean_try_def)
next
  case rd: (Inr names)
  assume run: "clean_try rs type maxAge w = (r, w')" and d: "distinct (map fname (files w))"
  show ?thesis
  proof (cases "parseMaxAge maxAge")
    case (Inl e)
    with rd run show ?thesis by (auto simp: clean_try_def read_clock_def)
  next
    case (Inr m)
    let ?w1 = "w\<lparr>ticks := Suc (ticks w)\<rparr>"
    from rd run Inr
    have "clean_loop (checkpoint_prefix type) (ms (clock w (ticks w))) (int m) names ?w1 = (r, w')"
      by (simp add: clean_try_def read_clock_def)
    from clean_loop_frame[OF _ this] d Inr show ?thesis by (simp add: expired_def)
  qed
qed


subsection \<open>Evaluating the examples\<close>

lemmas fixture_defs = demo_clock_def demo_env_def fresh_world_def demo_checkpoint_def
  checkpoint_50_of_120_def demo_file_def latest_listing_file_def old_listing_file_def
  old_category_file_def notes_file_def resume_world_def store_world_def
  flaky_def always_failing_def strict_importer_def disk_full_world_def offline_world_def
  recovery_def strict_env_def

lemma first_rejection_accepting: "first_rejection accepting xs = None"
  by (induction xs) (simp_all add: accepting_def)

lemma documents_accepting: "documents accepting xs = xs"
  by (induction xs) (simp_all add: accepting_def)

lemma validate_batch_accepting: "validate_batch accepting xs = Inr xs"
  by (simp add: validate_batch_def first_rejection_accepting documents_accepting)

lemmas run_defs =
  import_def import_start_def getImporter_def empty_results_def try_batch_def record_failure_def
  slice_def commit_batch_def retryOperation_def retry_from.simps js_div_def importManager_def
  recoverySystem_def import_loop.simps validate_batch_accepting Let_def
  initialize_def fs_mkdir_def fs_readdir_def fs_readFile_def fs_stat_def fs_unlink_def
  fs_writeFile_def lookup_file_def JSON_parse_def read_clock_def checkpoint_basename_def
  checkpoint_prefix_def path_join_def generateCheckpointFilename_def saveCheckpoint_def
  loadLatestCheckpoint_def startsWith_def parseMaxAge_def is_digit_def parseInt_def
  digit_value_def unit_ms_def clean_try_def cleanOldCheckpoints_def replace_colon_dot_def
  digit_char_def


subsection \<open>The batch loop\<close>

text \<open>
  With a positive batch size the loop returns. When moreover no checkpoint write
  fails and \<open>continueOnError\<close> is set, it runs to the end and raises
  \<open>success + failed\<close> by the number of records from its start index on. A
  checkpoint saved with a progress inside the data holds the suffix of that data.
\<close>

lemma retry_from_preserves:
  "(\<And>u. P u \<Longrightarrow> P (snd (operation u))) \<Longrightarrow> P w \<Longrightarrow>
   P (fst (snd (retry_from rs operation attempt lastError w tr)))"
proof (induction rs operation attempt lastError w tr rule: retry_from.induct)
  case (1 rs operation attempt lastError w tr)
  note step = "1.prems"(1)
  show ?case
  proof (cases "attempt \<le> maxRetries rs")
    case False
    with "1.prems"(2) show ?thesis by (subst retry_from.simps) simp
  next
    case True
    obtain r w1 where op: "operation w = (r, w1)" by (cases "operation w")
    from op step[OF "1.prems"(2)] have p1: "P w1" by simp
    show ?thesis
    proof (cases r)
      case (Inr v)
      with True op p1 show ?thesis by (subst retry_from.simps) simp
    next
      case (Inl e)
      from "1.IH"[OF True op[symmetric] Inl step p1] True op Inl
      show ?thesis by (subst retry_from.simps) simp
    qed
  qed
qed

lemma commit_batch_write_fault: "write_fault (snd (commit_batch docs u)) = write_fault u"
  by (simp add: commit_batch_def split: option.splits)

lemma retry_commit_write_fault:
  "write_fault (fst (snd (retryOperation rs (commit_batch docs) context w))) = write_fault w"
  unfolding retryOperation_def
  by (rule retry_from_preserves[where P = "\<lambda>u. write_fault u = write_fault w"])
     (simp_all add: commit_batch_write_fault)

lemma saveCheckpoint_without_faults:
  assumes "\<forall>n. write_fault w n = None"
  shows "\<exists>name w'. saveCheckpoint rs type data prog w = (Inr name, w') \<and> write_fault w' = write_fault w"
  using assms
  by (simp add: saveCheckpoint_def fs_writeFile_def read_clock_def Let_def)

lemma length_slice: "length (slice xs i (i + b)) = min b (length xs - i)"
  by (simp add: slice_def)

lemma try_batch_counts:
  assumes wf: "\<forall>n. write_fault w n = None"
  shows "\<exists>r results1 w1.
           try_batch mgr rs env importer type transformedData i results w = (r, results1, w1)
         \<and> write_fault w1 = write_fault w
         \<and> success results1 + failed results1 + (if r = None then 0 else min (batchSize env) (length transformedData - i))
             = success results + failed results + min (batchSize env) (length transformedData - i)"
proof (cases "validate_batch importer (slice transformedData i (i + batchSize env))")
  case (Inl e)
  then show ?thesis by (simp add: try_batch_def)
next
  case (Inr docs)
  obtain r w1 tr where ro:
    "retryOperation rs (commit_batch docs) (js_div i (batchSize env), type) w = (r, w1, tr)"
    by (cases "retryOperation rs (commit_batch docs) (js_div i (batchSize env), type) w") auto
  from retry_commit_write_fault[of rs docs "(js_div i (batchSize env), type)" w] ro
  have w1: "write_fault w1 = write_fault w" by simp
  show ?thesis
  proof (cases r)
    case (Inl e)
    with Inr ro w1 show ?thesis by (simp add: try_batch_def)
  next
    case r: (Inr u)
    show ?thesis
    proof (cases "i > 0 \<and> i mod checkpointInterval mgr = 0")
      case False
      with Inr ro r w1 show ?thesis by (auto simp: try_batch_def Let_def length_slice)
    next
      case True
      from wf w1 have "\<forall>n. write_fault w1 n = None" by simp
      from saveCheckpoint_without_faults[OF this, of rs type transformedData
          "i + length (slice transformedData i (i + batchSize env))"]
      obtain name w2 where
        "saveCheckpoint rs type transformedData
           (i + length (slice transformedData i (i + batchSize env))) w1 = (Inr name, w2)"
        and "write_fault w2 = write_fault w1" by blast
      with True Inr ro r w1 show ?thesis by (simp add: try_batch_def Let_def length_slice)
    qed
  qed
qed

lemma import_loop_counts:
  assumes b: "0 < batchSize env" and c: "continueOnError opts"
  shows "\<forall>n. write_fault w n = None \<Longrightarrow>
         \<exists>results' w'. import_loop mgr rs env importer opts type transformedData i results w
                          = Some (None, results', w')
           \<and> success results' + failed results'
               = success results + failed results + (length transformedData - i)"
proof (induction "length transformedData - i" arbitrary: i results w rule: less_induct)
  case less
  show ?case
  proof (cases "i < length transformedData")
    case False
    then show ?thesis by (subst import_loop.simps) simp
  next
    case True
    from try_batch_counts[OF less.prems, of mgr rs env importer type transformedData i results]
    obtain r results1 w1 where
      tb: "try_batch mgr rs env importer type transformedData i results w = (r, results1, w1)"
      and w1: "write_fault w1 = write_fault w"
      and cnt: "success results1 + failed results1
                  + (if r = None then 0 else min (batchSize env) (length transformedData - i))
                = success results + failed results + min (batchSize env) (length transformedData - i)"
      by blast
    from w1 less.prems have wf1: "\<forall>n. write_fault w1 n = None" by simp
    have dec: "length transformedData - (i + batchSize env) < length transformedData - i"
      using True b by simp
    have rest: "min (batchSize env) (length transformedData - i)
                  + (length transformedData - (i + batchSize env)) = length transformedData - i"
      by simp
    show ?thesis
    proof (cases r)
      case None
      from less.hyps[OF dec wf1, of results1]
      obtain results' w' where
        run: "import_loop mgr rs env importer opts type transformedData (i + batchSize env) results1 w1
           = Some (None, results', w')"
        and sum: "success results' + failed results'
               = success results1 + failed results1 + (length transformedData - (i + batchSize env))"
        by blast
      have "import_loop mgr rs env importer opts type transformedData i results w
              = Some (None, results', w')"
        using None tb True run by (subst import_loop.simps) simp
      moreover have "success results' + failed results'
               = success results + failed results + (length transformedData - i)"
        using sum cnt rest None by simp
      ultimately show ?thesis by blast
    next
      case (Some e)
      let ?r2 = "record_failure env transformedData i e results1"
      have r2: "success ?r2 + failed ?r2
          = success results1 + failed results1 + min (batchSize env) (length transformedData - i)"
        by (simp add: record_failure_def Let_def length_slice)
      from less.hyps[OF dec wf1, of ?r2]
      obtain results' w' where
        run: "import_loop mgr rs env importer opts type transformedData (i + batchSize env) ?r2 w1
           = Some (None, results', w')"
        and sum: "success results' + failed results'
               = success ?r2 + failed ?r2 + (length transformedData - (i + batchSize env))"
        by blast
      have "import_loop mgr rs env importer opts type transformedData i results w
              = Some (None, results', w')"
        using Some tb True run c by (subst import_loop.simps) (simp add: Let_def)
      moreover have "success results' + failed results'
               = success results + failed results + (length transformedData - i)"
        using sum cnt rest r2 Some by simp
      ultimately show ?thesis by blast
    qed
  qed
qed

lemma import_loop_returns:
  assumes b: "0 < batchSize env"
  shows "\<exists>r. import_loop mgr rs env importer opts type transformedData i results w = Some r"
proof (induction "length transformedData - i" arbitrary: i results w rule: less_induct)
  case less
  show ?case
  proof (cases "i < length transformedData")
    case False
    then show ?thesis by (subst import_loop.simps) simp
  next
    case True
    then have dec: "length transformedData - (i + batchSize env) < length transformedData - i"
      using b by simp
    obtain r results1 w1 where
      tb: "try_batch mgr rs env importer type transformedData i results w = (r, results1, w1)"
      by (cases "try_batch mgr rs env importer type transformedData i results w") auto
    show ?thesis
      using less.hyps[OF dec] tb True
      by (subst import_loop.simps) (simp add: Let_def split: option.splits)
  qed
qed


lemma saved_checkpoint_invariant:
  assumes "prog \<le> length data" and "saveCheckpoint rs type data prog w = (Inr name, w')"
  shows "\<exists>cp. Json (Checkpoint cp) \<in> content ` set (files w')
            \<and> remainingData cp = drop prog data
            \<and> processedCount cp = prog
            \<and> totalCount cp = length data
            \<and> processedCount cp + length (remainingData cp) = totalCount cp"
  using assms
  by (auto simp: saveCheckpoint_def fs_writeFile_def read_clock_def Let_def image_iff
           split: option.splits)

lemma batch_end_within_data:
  "i < length transformedData \<Longrightarrow>
   i + length (slice transformedData i (i + b)) \<le> length transformedData"
  by (simp add: slice_def)



section \<open>The properties\<close>

text \<open>
  Claim C1 (resuming processes the records that follow the checkpoint). The program
  run on the scenario of the specification: batch size 50, \<open>options.resume\<close> set, and
  a latest checkpoint with \<open>processedCount = 50\<close>, \<open>totalCount = 120\<close> and the 70
  records \<open>50..119\<close> as \<open>remainingData\<close>. The loop starts at index 50 of the 70
  remaining records, so the only batch committed is the records \<open>100..119\<close>: 20
  records are counted, and the records \<open>50..99\<close> are never submitted.
\<close>

theorem resumed_run_skips_remaining_records:
  "map_option (\<lambda>(r, w). (r, committed w))
     (import importManager recovery (demo_env 120 50) ''listings.json'' ''listing''
        \<lparr>resume = True, continueOnError = False\<rparr> resume_world)
   = Some (Returned \<lparr>success = 20, failed = 0, errors = [],
             checkpoints = [''/srv/import/checkpoints/checkpoint_listing_2024-01-01T00-00-00-000Z.json'']\<rparr>,
           [[100..<120]])"
  by (simp add: run_defs fixture_defs del: upt_rec_numeral)

text \<open>
  Claim C2 (a saved checkpoint holds the suffix of the original sequence). In the
  same resumed run \<open>saveCheckpoint\<close> is handed the 70 remaining records, not the
  original 120. The checkpoint it writes has \<open>processedCount = 70\<close>,
  \<open>totalCount = 70\<close> and no \<open>remainingData\<close>, while the suffix of the original
  sequence from index 70 is the 50 records \<open>70..119\<close>.
\<close>

theorem resumed_run_saves_checkpoint_of_the_reduced_slice:
  "map_option (\<lambda>(r, w). map content (files w))
     (import importManager recovery (demo_env 120 50) ''listings.json'' ''listing''
        \<lparr>resume = True, continueOnError = False\<rparr> resume_world)
   = Some [Json (Checkpoint checkpoint_50_of_120),
           Json (Checkpoint \<lparr>timestamp = ''2024-01-01T00-00-00-000Z'', ctype = ''listing'', progress = 70,
                 remainingData = [], processedCount = 70, totalCount = 70\<rparr>)]
   \<and> drop 70 [0..<120] = [70..<120]"
  by (simp add: run_defs fixture_defs del: upt_rec_numeral)

text \<open>
  Claim C3 (a failed checkpoint save does not fail its batch). A fresh run over 100
  records with batch size 50 on a disk that rejects every write. Both batches commit;
  the save after the second batch throws inside the batch's \<open>try\<close> block, after
  \<open>success\<close> was raised. With \<open>continueOnError\<close> the 50 records of that batch are
  counted in \<open>success\<close> and again in \<open>failed\<close> and an error entry is appended;
  without it the run is aborted with the disk's error.
\<close>

theorem checkpoint_save_failure_fails_the_batch:
  "map_option fst
     (import importManager recovery (demo_env 100 50) ''listings.json'' ''listing''
        \<lparr>resume = False, continueOnError = True\<rparr> disk_full_world)
   = Some (Returned \<lparr>success = 100, failed = 50,
             errors = [\<lparr>batch = Whole 1, error = ''ENOSPC: no space left on device'',
                        items = [50..<100]\<rparr>],
             checkpoints = []\<rparr>)
   \<and> map_option fst
     (import importManager recovery (demo_env 100 50) ''listings.json'' ''listing''
        \<lparr>resume = False, continueOnError = False\<rparr> disk_full_world)
   = Some (Thrown ''ENOSPC: no space left on device'')"
  by (simp add: run_defs fixture_defs del: upt_rec_numeral)

text \<open>
  Claim C4 (a checkpoint whenever the processed count reaches a multiple of the
  interval). Fresh runs without faults, batch size 50, interval 50. The test
  \<open>i > 0 && i % checkpointInterval === 0\<close> reads the start index of the batch, so
  over 100 records one checkpoint is written (with processed count 100) and none when
  the count reached 50; over 50 records none is written at all.
\<close>

theorem checkpoint_cadence_follows_batch_start:
  "map_option (\<lambda>(r, w). (r, map content (files w)))
     (import importManager recovery (demo_env 100 50) ''listings.json'' ''listing''
        \<lparr>resume = False, continueOnError = False\<rparr> fresh_world)
   = Some (Returned \<lparr>success = 100, failed = 0, errors = [],
             checkpoints = [''/srv/import/checkpoints/checkpoint_listing_2024-01-01T00-00-00-000Z.json'']\<rparr>,
           [Json (Checkpoint
                    \<lparr>timestamp = ''2024-01-01T00-00-00-000Z'', ctype = ''listing'', progress = 100,
                     remainingData = [], processedCount = 100, totalCount = 100\<rparr>)])
   \<and> map_option fst
     (import importManager recovery (demo_env 50 50) ''listings.json'' ''listing''
        \<lparr>resume = False, continueOnError = False\<rparr> fresh_world)
   = Some (Returned \<lparr>success = 50, failed = 0, errors = [], checkpoints = []\<rparr>)"
  by (simp add: run_defs fixture_defs del: upt_rec_numeral)

text \<open>
  Claim C5 (the retry contract). Let \<open>maxRetries\<close> be positive (the constructor
  sets 3). If the operation fails on its first \<open>k < maxRetries\<close> calls and call
  \<open>k\<close> returns \<open>v\<close>, then \<open>retryOperation\<close> returns \<open>v\<close>, has called the
  operation exactly \<open>k + 1\<close> times, and each failed attempt \<open>n\<close> was followed by a
  warning and a wait of \<open>retryDelay * n\<close> before the next call. If the operation
  fails on each of its first \<open>maxRetries\<close> calls, then \<open>retryOperation\<close> throws
  \<open>Operation failed after <maxRetries> attempts: <message of the last error>\<close>, has
  called the operation exactly \<open>maxRetries\<close> times, and has waited
  \<open>retryDelay * n\<close> after each failed attempt \<open>n\<close> but the last.
\<close>

theorem retryOperation_contract:
  assumes "0 < maxRetries rs"
  shows "(k < maxRetries rs \<and> fails_first operation w k \<and> outcome_at operation w k = Inr v \<longrightarrow>
            (\<exists>tr. retryOperation rs operation context w = (Inr v, world_after operation w (Suc k), tr)
               \<and> tr = concat (map (failed_attempt rs operation w) [1..<Suc k]) @ [Invoke]
               \<and> invocations tr = k + 1
               \<and> sleeps tr = map (\<lambda>n. retryDelay rs * n) [1..<Suc k]))
       \<and> (fails_first operation w (maxRetries rs) \<longrightarrow>
            (\<exists>tr. retryOperation rs operation context w =
                 (Inl (''Operation failed after '' @ show_nat (maxRetries rs) @ '' attempts: '' @
                       projl (outcome_at operation w (maxRetries rs - 1))),
                  world_after operation w (maxRetries rs), tr)
               \<and> tr = concat (map (failed_attempt rs operation w) [1..<Suc (maxRetries rs)])
               \<and> invocations tr = maxRetries rs
               \<and> sleeps tr = map (\<lambda>n. retryDelay rs * n) [1..<maxRetries rs]))"
proof (intro conjI impI)
  assume h: "k < maxRetries rs \<and> fails_first operation w k \<and> outcome_at operation w k = Inr v"
  then have "\<forall>i<k. isl (outcome_at operation w (0 + i))" by (simp add: fails_first_iff)
  from retry_from_succeeds[of 0 k rs operation w v None "[]", OF _ this] h
  have r: "retryOperation rs operation context w
      = (Inr v, world_after operation w (Suc k),
         concat (map (failed_attempt rs operation w) [1..<Suc k]) @ [Invoke])"
    by (simp add: retryOperation_def)
  have "invocations (concat (map (failed_attempt rs operation w) [1..<Suc k]) @ [Invoke]) = k + 1"
    using invocations_failed_attempts[of rs operation w 1 "Suc k"]
    by (simp add: invocations_def)
  moreover have "sleeps (concat (map (failed_attempt rs operation w) [1..<Suc k]) @ [Invoke])
      = map (\<lambda>n. retryDelay rs * n) [1..<Suc k]"
    using sleeps_failed_attempts[of "Suc k" rs operation w 1] h
    by (simp add: sleeps_def)
  ultimately show "\<exists>tr. retryOperation rs operation context w = (Inr v, world_after operation w (Suc k), tr)
               \<and> tr = concat (map (failed_attempt rs operation w) [1..<Suc k]) @ [Invoke]
               \<and> invocations tr = k + 1
               \<and> sleeps tr = map (\<lambda>n. retryDelay rs * n) [1..<Suc k]"
    using r by simp
next
  assume "fails_first operation w (maxRetries rs)"
  then have "\<forall>i<maxRetries rs. isl (outcome_at operation w (0 + i))" by (simp add: fails_first_iff)
  from retry_from_exhausted[of rs 0 "maxRetries rs" operation w None "[]", OF _ _ this] assms
  have r: "retryOperation rs operation context w
      = (Inl (''Operation failed after '' @ show_nat (maxRetries rs) @ '' attempts: '' @
                       projl (outcome_at operation w (maxRetries rs - 1))),
         world_after operation w (maxRetries rs),
         concat (map (failed_attempt rs operation w) [1..<Suc (maxRetries rs)]))"
    by (simp add: retryOperation_def exhausted_def)
  show "\<exists>tr. retryOperation rs operation context w =
                 (Inl (''Operation failed after '' @ show_nat (maxRetries rs) @ '' attempts: '' @
                       projl (outcome_at operation w (maxRetries rs - 1))),
                  world_after operation w (maxRetries rs), tr)
               \<and> tr = concat (map (failed_attempt rs operation w) [1..<Suc (maxRetries rs)])
               \<and> invocations tr = maxRetries rs
               \<and> sleeps tr = map (\<lambda>n. retryDelay rs * n) [1..<maxRetries rs]"
    using r invocations_failed_attempts[of rs operation w 1 "Suc (maxRetries rs)"]
      sleeps_all_failed_attempts[of rs operation w 1]
    by simp
qed

text \<open>
  The contract on a call that fails twice and then succeeds, and on one that always
  fails, with the constructor's \<open>maxRetries = 3\<close> and \<open>retryDelay = 1000\<close>.
\<close>

theorem retryOperation_contract_witness:
  "retryOperation recovery flaky () 0 =
     (Inr ''done'', 3,
      [Invoke, Warn 1 ''ETIMEDOUT'', Sleep 1000, Invoke, Warn 2 ''ETIMEDOUT'', Sleep 2000, Invoke])
   \<and> retryOperation recovery always_failing () 0 =
     (Inl ''Operation failed after 3 attempts: ETIMEDOUT on call 2'', 3,
      [Invoke, Warn 1 ''ETIMEDOUT on call 0'', Sleep 1000,
       Invoke, Warn 2 ''ETIMEDOUT on call 1'', Sleep 2000,
       Invoke, Warn 3 ''ETIMEDOUT on call 2''])"
proof -
  have pos: "0 < maxRetries recovery" by (simp add: recovery_def recoverySystem_def)
  have a: "retryOperation recovery flaky () 0 =
     (Inr ''done'', 3,
      [Invoke, Warn 1 ''ETIMEDOUT'', Sleep 1000, Invoke, Warn 2 ''ETIMEDOUT'', Sleep 2000, Invoke])"
    using retryOperation_contract[OF pos, of 2 flaky 0 "''done''" "()"]
    by (simp add: flaky_def fails_first_def outcome_at_def failed_attempt_def recovery_def recoverySystem_def
          numeral_2_eq_2 numeral_3_eq_3)
  have b: "retryOperation recovery always_failing () 0 =
     (Inl ''Operation failed after 3 attempts: ETIMEDOUT on call 2'', 3,
      [Invoke, Warn 1 ''ETIMEDOUT on call 0'', Sleep 1000,
       Invoke, Warn 2 ''ETIMEDOUT on call 1'', Sleep 2000,
       Invoke, Warn 3 ''ETIMEDOUT on call 2''])"
    using retryOperation_contract[OF pos, of 0 always_failing 0 undefined "()"]
    by (simp add: always_failing_def fails_first_def outcome_at_def failed_attempt_def recovery_def recoverySystem_def
          show_nat.simps digit_char_def numeral_2_eq_2 numeral_3_eq_3)
  from a b show ?thesis by blast
qed

text \<open>
  Claim C6 (\<open>success + failed\<close> is the number of records to process). Two runs
  that are not aborted. The fresh run over 100 records on the disk that rejects the
  checkpoint write ends with \<open>success + failed = 150\<close>. The resumed run from the
  checkpoint at 50 of 120 ends with \<open>success + failed = 20\<close>, where 70 records
  were left to process.
\<close>

theorem success_plus_failed_differs_from_length:
  "map_option (counted \<circ> fst)
     (import importManager recovery (demo_env 100 50) ''listings.json'' ''listing''
        \<lparr>resume = False, continueOnError = True\<rparr> disk_full_world)
   = Some 150
   \<and> map_option (counted \<circ> fst)
     (import importManager recovery (demo_env 120 50) ''listings.json'' ''listing''
        \<lparr>resume = True, continueOnError = True\<rparr> resume_world)
   = Some 20"
  by (simp add: run_defs fixture_defs counted_def del: upt_rec_numeral)



text \<open>
  Claim C8 (\<open>loadLatestCheckpoint\<close> returns the latest checkpoint, the empty result
  or an error) does not hold as stated. When the latest listing checkpoint file holds
  \<open>{}\<close>, which is no checkpoint, the call returns that value and throws nothing, and
  \<open>import\<close> resuming from it returns normally with nothing processed. When the
  directory cannot be listed, so that no checkpoint exists, the call throws where the
  claim says it returns the empty result.
\<close>

theorem loadLatestCheckpoint_returns_unchecked_json:
  "loadLatestCheckpoint recovery ''listing''
     (store_world\<lparr>files := [old_listing_file, latest_listing_file\<lparr>content := Json (Other True)\<rparr>]\<rparr>)
     = Inr (Other True)
   \<and> map_option fst
       (import importManager recovery (demo_env 120 50) ''listings.json'' ''listing''
          \<lparr>resume = True, continueOnError = False\<rparr>
          (store_world\<lparr>files := [old_listing_file, latest_listing_file\<lparr>content := Json (Other True)\<rparr>]\<rparr>))
     = Some (Returned \<lparr>success = 0, failed = 0, errors = [], checkpoints = []\<rparr>)
   \<and> loadLatestCheckpoint recovery ''listing''
       (fresh_world\<lparr>readdir_fault := Some ''ENOENT: no such file or directory''\<rparr>)
     = Inl ''ENOENT: no such file or directory''"
  by (simp add: run_defs fixture_defs less_char_def del: upt_rec_numeral)

text \<open>
  Claim C8, amended. If the directory cannot be listed the call throws that error.
  If it can and no file name starts with \<open>checkpoint_<type>_\<close>, the result is
  \<open>null\<close>. Otherwise, the file names being distinct, let \<open>f\<close> be the file with the
  greatest such name in lexicographic order: if \<open>f\<close> is readable and its text is
  valid JSON, the result is the value parsed from it, whatever that value is (a
  checkpoint, \<open>null\<close>, \<open>{}\<close>); if \<open>f\<close> is unreadable or its text is not valid
  JSON, the call throws. Names built by \<open>saveCheckpoint\<close> for one type from
  timestamps of equal length are ordered as their timestamps are, so the greatest name
  is the one of the most recent checkpoint.
\<close>

theorem loadLatestCheckpoint_returns_parsed_latest:
  "(\<forall>e. readdir_fault w = Some e \<longrightarrow> loadLatestCheckpoint rs type w = Inl e)
   \<and> (readdir_fault w = None
        \<and> list_all (\<lambda>g. \<not> startsWith (fname g) (checkpoint_prefix type)) (files w)
      \<longrightarrow> loadLatestCheckpoint rs type w = Inr Null)
   \<and> (\<forall>f \<in> set (files w).
         readdir_fault w = None \<and> distinct (map fname (files w))
         \<and> startsWith (fname f) (checkpoint_prefix type)
         \<and> (\<forall>g \<in> set (files w). startsWith (fname g) (checkpoint_prefix type) \<longrightarrow> fname g \<le> fname f)
         \<longrightarrow> (\<forall>j. readable f \<and> content f = Json j \<longrightarrow> loadLatestCheckpoint rs type w = Inr j)
           \<and> (\<not> readable f \<or> content f = Garbled \<longrightarrow> isl (loadLatestCheckpoint rs type w)))
   \<and> (\<forall>t1 t2. length t1 = length t2 \<longrightarrow>
         (checkpoint_basename type t1 \<le> checkpoint_basename type t2) = (t1 \<le> t2))"
proof (intro conjI impI ballI allI)
  fix e
  assume "readdir_fault w = Some e"
  then show "loadLatestCheckpoint rs type w = Inl e" by (rule loadLatest_unlistable)
next
  assume "readdir_fault w = None
        \<and> list_all (\<lambda>g. \<not> startsWith (fname g) (checkpoint_prefix type)) (files w)"
  then show "loadLatestCheckpoint rs type w = Inr Null" by (simp add: loadLatest_none)
next
  fix f j
  assume f: "f \<in> set (files w)"
    and l: "readdir_fault w = None \<and> distinct (map fname (files w))
         \<and> startsWith (fname f) (checkpoint_prefix type)
         \<and> (\<forall>g \<in> set (files w). startsWith (fname g) (checkpoint_prefix type) \<longrightarrow> fname g \<le> fname f)"
    and c: "readable f \<and> content f = Json j"
  from l have rd: "readdir_fault w = None" and d: "distinct (map fname (files w))" by simp_all
  from loadLatest_pick[OF rd d f, of type rs] l c
  show "loadLatestCheckpoint rs type w = Inr j" by simp
next
  fix f
  assume f: "f \<in> set (files w)"
    and l: "readdir_fault w = None \<and> distinct (map fname (files w))
         \<and> startsWith (fname f) (checkpoint_prefix type)
         \<and> (\<forall>g \<in> set (files w). startsWith (fname g) (checkpoint_prefix type) \<longrightarrow> fname g \<le> fname f)"
    and c: "\<not> readable f \<or> content f = Garbled"
  from l have rd: "readdir_fault w = None" and d: "distinct (map fname (files w))" by simp_all
  from loadLatest_pick[OF rd d f, of type rs] l c
  show "isl (loadLatestCheckpoint rs type w)" by auto
next
  fix t1 t2 :: string
  assume "length t1 = length t2"
  then show "(checkpoint_basename type t1 \<le> checkpoint_basename type t2) = (t1 \<le> t2)"
    by (rule basename_order)
qed

text \<open>
  A directory with two listing checkpoints, a category checkpoint and another file:
  the later listing checkpoint is loaded and an unknown type has none. A latest
  checkpoint holding \<open>null\<close> is returned as it is, one whose text is damaged is an
  error, and so is a directory that cannot be listed.
\<close>

theorem loadLatestCheckpoint_returns_parsed_latest_witness:
  "loadLatestCheckpoint recovery ''listing'' store_world = Inr (Checkpoint checkpoint_50_of_120)
   \<and> loadLatestCheckpoint recovery ''tag'' store_world = Inr Null
   \<and> loadLatestCheckpoint recovery ''listing''
       (store_world\<lparr>files := [old_listing_file, latest_listing_file\<lparr>content := Json Null\<rparr>]\<rparr>)
     = Inr Null
   \<and> isl (loadLatestCheckpoint recovery ''listing''
            (store_world\<lparr>files := [old_listing_file, latest_listing_file\<lparr>content := Garbled\<rparr>]\<rparr>))
   \<and> loadLatestCheckpoint recovery ''listing''
       (store_world\<lparr>readdir_fault := Some ''EACCES: permission denied''\<rparr>)
     = Inl ''EACCES: permission denied''"
proof -
  let ?n = "store_world\<lparr>files := [old_listing_file, latest_listing_file\<lparr>content := Json Null\<rparr>]\<rparr>"
  let ?g = "store_world\<lparr>files := [old_listing_file, latest_listing_file\<lparr>content := Garbled\<rparr>]\<rparr>"
  have a: "loadLatestCheckpoint recovery ''listing'' store_world = Inr (Checkpoint checkpoint_50_of_120)"
    using loadLatestCheckpoint_returns_parsed_latest[of store_world recovery "''listing''"]
    by (simp add: fixture_defs startsWith_def checkpoint_prefix_def less_char_def)
  have b: "loadLatestCheckpoint recovery ''tag'' store_world = Inr Null"
    using loadLatestCheckpoint_returns_parsed_latest[of store_world recovery "''tag''"]
    by (simp add: fixture_defs startsWith_def checkpoint_prefix_def)
  have c: "loadLatestCheckpoint recovery ''listing'' ?n = Inr Null"
    using loadLatestCheckpoint_returns_parsed_latest[of ?n recovery "''listing''"]
    by (simp add: fixture_defs startsWith_def checkpoint_prefix_def less_char_def)
  have d: "isl (loadLatestCheckpoint recovery ''listing'' ?g)"
    using loadLatestCheckpoint_returns_parsed_latest[of ?g recovery "''listing''"]
    by (simp add: fixture_defs startsWith_def checkpoint_prefix_def less_char_def)
  have e: "loadLatestCheckpoint recovery ''listing''
             (store_world\<lparr>readdir_fault := Some ''EACCES: permission denied''\<rparr>)
           = Inl ''EACCES: permission denied''"
    using loadLatestCheckpoint_returns_parsed_latest
      [of "store_world\<lparr>readdir_fault := Some ''EACCES: permission denied''\<rparr>" recovery "''listing''"]
    by (simp add: fixture_defs)
  from a b c d e show ?thesis by blast
qed

text \<open>
  Claim C9 (a malformed \<open>maxAge\<close> reaches the caller of pruning) does not hold as
  stated: \<open>parseMaxAge\<close> rejects \<open>7 days\<close>, yet \<open>cleanOldCheckpoints\<close> called
  with it throws nothing.
\<close>

theorem cleanOldCheckpoints_swallows_malformed_maxAge:
  "parseMaxAge ''7 days'' = Inl ''Invalid maxAge format. Use format: 7d or 1w''
   \<and> fst (cleanOldCheckpoints recovery ''listing'' ''7 days'' store_world) = None"
  by (simp add: parseMaxAge_def is_digit_def cleanOldCheckpoints_def clean_try_def fs_readdir_def
        read_clock_def fixture_defs)

text \<open>
  Claim C9, amended. For every string that is not of the form digits followed by
  \<open>d\<close> or \<open>w\<close>, \<open>parseMaxAge\<close> throws
  \<open>Invalid maxAge format. Use format: 7d or 1w\<close> at once; \<open>cleanOldCheckpoints\<close>
  catches that error, throws nothing to its caller and leaves every file in place.
\<close>

theorem malformed_maxAge_is_rejected_then_swallowed:
  assumes "\<not> duration_form maxAge"
  shows "parseMaxAge maxAge = Inl ''Invalid maxAge format. Use format: 7d or 1w''
       \<and> fst (cleanOldCheckpoints rs type maxAge w) = None
       \<and> files (snd (cleanOldCheckpoints rs type maxAge w)) = files w"
proof -
  from assms have "\<nexists>m. parseMaxAge maxAge = Inr m" by (simp add: parseMaxAge_Inr_iff)
  then have p: "parseMaxAge maxAge = Inl ''Invalid maxAge format. Use format: 7d or 1w''"
    by (auto simp: parseMaxAge_def Let_def split: if_splits)
  have "files (snd (clean_try rs type maxAge w)) = files w"
    by (simp add: clean_try_def p read_clock_def split: sum.splits)
  then have "files (snd (cleanOldCheckpoints rs type maxAge w)) = files w"
    by (simp add: clean_keeps_world)
  with p clean_never_throws show ?thesis by blast
qed

text \<open>
  The amended claim on \<open>7 days\<close> and the example directory.
\<close>

theorem malformed_maxAge_is_rejected_then_swallowed_witness:
  "parseMaxAge ''7 days'' = Inl ''Invalid maxAge format. Use format: 7d or 1w''
   \<and> fst (cleanOldCheckpoints recovery ''listing'' ''7 days'' store_world) = None
   \<and> files (snd (cleanOldCheckpoints recovery ''listing'' ''7 days'' store_world))
       = [old_category_file, latest_listing_file, notes_file, old_listing_file]"
proof -
  have "\<not> duration_form ''7 days''" by (simp add: duration_form_def is_digit_def)
  from malformed_maxAge_is_rejected_then_swallowed[OF this, of recovery "''listing''" store_world]
  show ?thesis by (simp add: store_world_def)
qed

text \<open>
  Claim C10 (pruning removes expired checkpoints of the type only). Let the file
  names of the directory be distinct. Every call of \<open>cleanOldCheckpoints\<close>
  completes without throwing; the directory afterwards holds only files it held
  before, unchanged; and every file that is gone has a name starting with
  \<open>checkpoint_<type>_\<close> and an age, at the time the call read the clock, above the
  parsed \<open>maxAge\<close>. So checkpoints of other types, younger checkpoints of this type
  and unrelated files all stay.
\<close>

theorem cleanOldCheckpoints_removes_only_expired:
  assumes "distinct (map fname (files w))"
    and "cleanOldCheckpoints rs type maxAge w = (thrown, w')"
  shows "thrown = None
       \<and> set (files w') \<subseteq> set (files w)
       \<and> (\<forall>f \<in> set (files w). f \<notin> set (files w') \<longrightarrow>
            startsWith (fname f) (checkpoint_prefix type) \<and> expired maxAge (ms (clock w (ticks w))) f)"
proof -
  obtain r w1 where ct: "clean_try rs type maxAge w = (r, w1)" by (cases "clean_try rs type maxAge w")
  with assms(2) have w': "w' = w1" and t: "thrown = None"
    by (auto simp: cleanOldCheckpoints_def split: option.splits)
  from clean_try_files[OF ct assms(1)] w' t show ?thesis by simp
qed

text \<open>
  Pruning listing checkpoints older than seven days in the example directory removes
  the twelve days old listing checkpoint and nothing else.
\<close>

theorem cleanOldCheckpoints_removes_only_expired_witness:
  "cleanOldCheckpoints recovery ''listing'' ''7d'' store_world
     = (None, store_world\<lparr>files := [old_category_file, latest_listing_file, notes_file], ticks := 1\<rparr>)
   \<and> expired ''7d'' 1704067200000 old_listing_file
   \<and> \<not> expired ''7d'' 1704067200000 latest_listing_file"
proof -
  have d: "distinct (map fname (files store_world))" by (simp add: fixture_defs)
  have run: "cleanOldCheckpoints recovery ''listing'' ''7d'' store_world
     = (None, store_world\<lparr>files := [old_category_file, latest_listing_file, notes_file], ticks := 1\<rparr>)"
    by (simp add: cleanOldCheckpoints_def clean_try_def fs_readdir_def read_clock_def parseMaxAge_def
          is_digit_def parseInt_def digit_value_def unit_ms_def fs_stat_def fs_unlink_def lookup_file_def
          startsWith_def checkpoint_prefix_def fixture_defs)
  from cleanOldCheckpoints_removes_only_expired[OF d run]
  have "expired ''7d'' (ms (clock store_world (ticks store_world))) old_listing_file"
    by (simp add: fixture_defs)
  then have "expired ''7d'' 1704067200000 old_listing_file" by (simp add: fixture_defs digit_char_def)
  moreover have "\<not> expired ''7d'' 1704067200000 latest_listing_file"
    by (simp add: expired_def parseMaxAge_def is_digit_def parseInt_def digit_value_def unit_ms_def
          fixture_defs)
  ultimately show ?thesis using run by blast
qed

end
